theory Spec2Isabelle
  imports Main
begin

section \<open>Python values, exceptions and log records\<close>

text \<open>
  The module \<^verbatim>\<open>conductor/voice_transcriber.py\<close> reads an untyped configuration
  dictionary, talks to two collaborators (the messaging bot and the OpenAI client) and
  keeps one temporary file. The embedding makes each of these explicit.

  A Python \<^verbatim>\<open>str\<close> is a list of code points, so that \<^verbatim>\<open>str.strip()\<close> can be given
  its real whitespace table; \<^verbatim>\<open>bytes\<close> are a list of 8-bit characters.
\<close>

type_synonym py_str = "nat list"
type_synonym bytes = string

definition str :: "string \<Rightarrow> py_str" where
  "str cs = map of_char cs"

datatype pyval =
    PNone
  | PBool bool
  | PInt int
  | PStr py_str
  | PDict "(string \<times> pyval) list"

type_synonym py_dict = "(string \<times> pyval) list"

text \<open>Truth value testing, as \<^verbatim>\<open>not x\<close> and \<^verbatim>\<open>if x\<close> apply it.\<close>

fun truthy :: "pyval \<Rightarrow> bool" where
  "truthy PNone = False"
| "truthy (PBool b) = b"
| "truthy (PInt i) = (i \<noteq> 0)"
| "truthy (PStr s) = (s \<noteq> [])"
| "truthy (PDict d) = (d \<noteq> [])"

text \<open>
  The exceptions that occur. \<^verbatim>\<open>KeyboardInterrupt\<close>, \<^verbatim>\<open>SystemExit\<close> and
  \<^verbatim>\<open>asyncio.CancelledError\<close> derive from \<^verbatim>\<open>BaseException\<close> only; every other
  constructor stands for an instance of \<^verbatim>\<open>Exception\<close>.
\<close>

datatype py_exc =
    AttributeError string
  | NameError string
  | FileNotFoundError string
  | IsADirectoryError string
  | PermissionError string
  | OtherException string
  | KeyboardInterrupt
  | SystemExit
  | CancelledError

fun isinstance_Exception :: "py_exc \<Rightarrow> bool" where
  "isinstance_Exception KeyboardInterrupt = False"
| "isinstance_Exception SystemExit = False"
| "isinstance_Exception CancelledError = False"
| "isinstance_Exception (AttributeError m) = True"
| "isinstance_Exception (NameError m) = True"
| "isinstance_Exception (FileNotFoundError m) = True"
| "isinstance_Exception (IsADirectoryError m) = True"
| "isinstance_Exception (PermissionError m) = True"
| "isinstance_Exception (OtherException m) = True"

datatype level = INFO | WARNING | ERROR

datatype log_arg = Val pyval | Exc py_exc

datatype log_record = Log level string "log_arg list"

subsection \<open>Dictionary lookup\<close>

text \<open>
  \<^verbatim>\<open>d.get(k, default)\<close> on a dictionary, and the same method call on an arbitrary
  value: only a dictionary has the method, anything else raises
  \<^verbatim>\<open>AttributeError\<close>.
\<close>

definition dict_get :: "py_dict \<Rightarrow> string \<Rightarrow> pyval \<Rightarrow> pyval" where
  "dict_get d k dflt = (case map_of d k of None \<Rightarrow> dflt | Some v \<Rightarrow> v)"

fun py_get :: "pyval \<Rightarrow> string \<Rightarrow> pyval \<Rightarrow> py_exc + pyval" where
  "py_get (PDict d) k dflt = Inr (dict_get d k dflt)"
| "py_get PNone k dflt = Inl (AttributeError ''get'')"
| "py_get (PBool b) k dflt = Inl (AttributeError ''get'')"
| "py_get (PInt i) k dflt = Inl (AttributeError ''get'')"
| "py_get (PStr s) k dflt = Inl (AttributeError ''get'')"

subsection \<open>\<^verbatim>\<open>str.strip()\<close>\<close>

text \<open>
  The code points for which \<^verbatim>\<open>str.isspace\<close> holds: TAB to CR, FS to US, SPACE,
  NEL, NBSP and the Unicode space separators.
\<close>

definition py_isspace :: "nat \<Rightarrow> bool" where
  "py_isspace c \<longleftrightarrow>
     (9 \<le> c \<and> c \<le> 13) \<or> (28 \<le> c \<and> c \<le> 32) \<or> c = 133 \<or> c = 160 \<or> c = 5760 \<or>
     (8192 \<le> c \<and> c \<le> 8202) \<or> c = 8232 \<or> c = 8233 \<or> c = 8239 \<or> c = 8287 \<or> c = 12288"

definition strip :: "py_str \<Rightarrow> py_str" where
  "strip s = rev (dropWhile py_isspace (rev (dropWhile py_isspace s)))"

text \<open>\<^verbatim>\<open>x.strip()\<close> on an arbitrary value: only a string has the method here.\<close>

fun py_strip :: "pyval \<Rightarrow> py_exc + py_str" where
  "py_strip (PStr s) = Inr (strip s)"
| "py_strip PNone = Inl (AttributeError ''strip'')"
| "py_strip (PBool b) = Inl (AttributeError ''strip'')"
| "py_strip (PInt i) = Inl (AttributeError ''strip'')"
| "py_strip (PDict d) = Inl (AttributeError ''strip'')"

section \<open>The environment\<close>

text \<open>
  The file system maps a path to what is there: a regular file that the process can read
  and delete, a regular file that it can read but not delete (the directory or the
  ownership forbids it), or a directory, with the size its entry reports.
  \<^verbatim>\<open>Path.exists\<close>, \<^verbatim>\<open>Path.stat().st_size\<close>, \<^verbatim>\<open>open(p, "rb")\<close> and
  \<^verbatim>\<open>Path.unlink\<close> are the operations the module uses. The last three raise
  \<^verbatim>\<open>FileNotFoundError\<close> on a missing path; a directory can neither be opened for
  reading nor unlinked, and unlinking a protected file raises \<^verbatim>\<open>PermissionError\<close>.
\<close>

datatype node =
    File bytes
  | Protected_file bytes
  | Dir nat

type_synonym fs = "string \<rightharpoonup> node"

definition exists :: "string \<Rightarrow> fs \<Rightarrow> bool" where
  "exists p fs = (fs p \<noteq> None)"

definition stat_st_size :: "string \<Rightarrow> fs \<Rightarrow> py_exc + nat" where
  "stat_st_size p fs =
     (case fs p of
        None \<Rightarrow> Inl (FileNotFoundError p)
      | Some (File data) \<Rightarrow> Inr (length data)
      | Some (Protected_file data) \<Rightarrow> Inr (length data)
      | Some (Dir n) \<Rightarrow> Inr n)"

definition open_rb :: "string \<Rightarrow> fs \<Rightarrow> py_exc + bytes" where
  "open_rb p fs =
     (case fs p of
        None \<Rightarrow> Inl (FileNotFoundError p)
      | Some (File data) \<Rightarrow> Inr data
      | Some (Protected_file data) \<Rightarrow> Inr data
      | Some (Dir n) \<Rightarrow> Inl (IsADirectoryError p))"

definition unlink :: "string \<Rightarrow> fs \<Rightarrow> py_exc + fs" where
  "unlink p fs =
     (case fs p of
        None \<Rightarrow> Inl (FileNotFoundError p)
      | Some (File data) \<Rightarrow> Inr (fs(p := None))
      | Some (Protected_file data) \<Rightarrow> Inl (PermissionError p)
      | Some (Dir n) \<Rightarrow> Inl (IsADirectoryError p))"

text \<open>
  The messaging client. \<^verbatim>\<open>get_file\<close> yields the \<^verbatim>\<open>file_path\<close> of the file
  object or raises; \<^verbatim>\<open>download_file\<close> gets that value and the destination path.
  Both may change the file system in any way.
\<close>

record bot =
  get_file :: "py_str \<Rightarrow> fs \<Rightarrow> (py_exc + pyval) \<times> fs"
  download_file :: "pyval \<Rightarrow> string \<Rightarrow> fs \<Rightarrow> (py_exc + unit) \<times> fs"

text \<open>
  The transcription client: \<^verbatim>\<open>client.audio.transcriptions.create(model=, file=)\<close>
  gets the model and the bytes of the open file and yields the \<^verbatim>\<open>text\<close> of the
  transcript or raises.
\<close>

type_synonym client = "pyval \<Rightarrow> bytes \<Rightarrow> py_exc + pyval"

text \<open>
  What the module finds around it: the name \<^verbatim>\<open>OpenAI\<close>, bound only when the import
  at the top of the module succeeded (it takes the API key and yields a client), and
  \<^verbatim>\<open>tempfile.mktemp\<close>, which picks a path name looking at the file system.
\<close>

record env =
  OpenAI :: "(pyval \<Rightarrow> py_exc + client) option"
  mktemp :: "fs \<Rightarrow> string"

definition HAS_OPENAI :: "env \<Rightarrow> bool" where
  "HAS_OPENAI rt = (OpenAI rt \<noteq> None)"

text \<open>
  The state a call runs in: the file system, the records written to the logger, and the
  requests made to the collaborators, in order.
\<close>

datatype call =
    Get_file py_str
  | Download_file pyval string
  | OpenAI_init pyval
  | Create pyval bytes

record world =
  files :: fs
  logs :: "log_record list"
  calls :: "call list"

definition logged :: "log_record \<Rightarrow> world \<Rightarrow> world" where
  "logged r w = w\<lparr>logs := logs w @ [r]\<rparr>"

definition called :: "call \<Rightarrow> world \<Rightarrow> world" where
  "called c w = w\<lparr>calls := calls w @ [c]\<rparr>"

section \<open>\<^verbatim>\<open>is_available\<close>\<close>

definition is_available :: "env \<Rightarrow> py_dict \<Rightarrow> log_record list \<Rightarrow> (py_exc + bool) \<times> log_record list" where
  "is_available rt config lg =
     (let voice_cfg = dict_get config ''voice'' (PDict []) in
      case py_get voice_cfg ''enabled'' (PBool False) of
        Inl e \<Rightarrow> (Inl e, lg)
      | Inr enabled \<Rightarrow>
          if \<not> truthy enabled then (Inr False, lg)
          else if \<not> HAS_OPENAI rt then
            (Inr False,
             lg @ [Log WARNING ''Voice enabled but 'openai' package not installed. pip3 install openai'' []])
          else
            (case py_get voice_cfg ''openai_api_key'' PNone of
               Inl e \<Rightarrow> (Inl e, lg)
             | Inr key \<Rightarrow>
                 if \<not> truthy key then
                   (Inr False,
                    lg @ [Log WARNING ''Voice enabled but conductor.telegram.voice.openai_api_key not set'' []])
                 else (Inr True, lg)))"

section \<open>\<^verbatim>\<open>transcribe_voice\<close>\<close>

text \<open>
  Lines 57 to 68, from the first log record to the \<^verbatim>\<open>return\<close>, with the temporary
  path in hand.
\<close>

definition transcribe_step ::
  "env \<Rightarrow> pyval \<Rightarrow> pyval \<Rightarrow> string \<Rightarrow> world \<Rightarrow> (py_exc + py_str option) \<times> world" where
  "transcribe_step rt api_key model tmp_path w =
     (case stat_st_size tmp_path (files w) of
        Inl e \<Rightarrow> (Inl e, w)
      | Inr st_size \<Rightarrow>
          let w1 = logged (Log INFO ''Voice file downloaded (%d bytes), transcribing with %s''
                             [Val (PInt (int st_size)), Val model]) w in
          (case OpenAI rt of
             None \<Rightarrow> (Inl (NameError ''OpenAI''), w1)
           | Some ctor \<Rightarrow>
               let w2 = called (OpenAI_init api_key) w1 in
               (case ctor api_key of
                  Inl e \<Rightarrow> (Inl e, w2)
                | Inr client \<Rightarrow>
                    (case open_rb tmp_path (files w2) of
                       Inl e \<Rightarrow> (Inl e, w2)
                     | Inr audio_file \<Rightarrow>
                         let w3 = called (Create model audio_file) w2 in
                         (case client model audio_file of
                            Inl e \<Rightarrow> (Inl e, w3)
                          | Inr transcript_text \<Rightarrow>
                              (case py_strip transcript_text of
                                 Inl e \<Rightarrow> (Inl e, w3)
                               | Inr text \<Rightarrow>
                                   (Inr (if text \<noteq> [] then Some text else None),
                                    logged (Log INFO ''Transcription result (%d chars): %s''
                                              [Val (PInt (int (length text))), Val (PStr (take 100 text))])
                                      w3)))))))"

text \<open>
  The body of the \<^verbatim>\<open>try\<close>, lines 53 to 68. The second component is the value of
  \<^verbatim>\<open>tmp_path\<close> when the block is left: \<^verbatim>\<open>None\<close> until line 54 has run.
\<close>

definition try_block ::
  "env \<Rightarrow> bot \<Rightarrow> py_str \<Rightarrow> pyval \<Rightarrow> pyval \<Rightarrow> world \<Rightarrow> (py_exc + py_str option) \<times> string option \<times> world" where
  "try_block rt b voice_file_id api_key model w =
     (let w0 = called (Get_file voice_file_id) w in
      case get_file b voice_file_id (files w0) of
        (Inl e, fs1) \<Rightarrow> (Inl e, None, w0\<lparr>files := fs1\<rparr>)
      | (Inr file_path, fs1) \<Rightarrow>
          let w1 = w0\<lparr>files := fs1\<rparr>;
              tmp_path = mktemp rt (files w1);
              w2 = called (Download_file file_path tmp_path) w1 in
          (case download_file b file_path tmp_path (files w2) of
             (Inl e, fs2) \<Rightarrow> (Inl e, Some tmp_path, w2\<lparr>files := fs2\<rparr>)
           | (Inr u, fs2) \<Rightarrow>
               (case transcribe_step rt api_key model tmp_path (w2\<lparr>files := fs2\<rparr>) of
                  (r, w3) \<Rightarrow> (r, Some tmp_path, w3))))"

text \<open>
  \<^verbatim>\<open>except Exception as e\<close>, lines 70 to 72: an instance of \<^verbatim>\<open>Exception\<close> is
  logged and turned into \<^verbatim>\<open>None\<close>; any other exception goes on.
\<close>

definition except_clause :: "(py_exc + py_str option) \<times> world \<Rightarrow> (py_exc + py_str option) \<times> world" where
  "except_clause rw =
     (case rw of
        (Inl e, w) \<Rightarrow>
          if isinstance_Exception e
          then (Inr None, logged (Log ERROR ''Voice transcription failed: %s'' [Exc e]) w)
          else (Inl e, w)
      | (Inr v, w) \<Rightarrow> (Inr v, w))"

text \<open>
  \<^verbatim>\<open>finally\<close>, lines 74 to 76. A \<^verbatim>\<open>Path\<close> is always true, so \<^verbatim>\<open>if tmp_path\<close>
  asks whether line 54 has run. The deletion is not guarded: when \<^verbatim>\<open>unlink\<close> raises,
  its exception replaces the pending return value or exception and the file system stays
  as it is.
\<close>

definition cleanup :: "string option \<Rightarrow> fs \<Rightarrow> py_exc + fs" where
  "cleanup tmp_path fs =
     (case tmp_path of
        None \<Rightarrow> Inr fs
      | Some p \<Rightarrow> if exists p fs then unlink p fs else Inr fs)"

definition finally_clause ::
  "string option \<Rightarrow> (py_exc + py_str option) \<times> world \<Rightarrow> (py_exc + py_str option) \<times> world" where
  "finally_clause tmp_path rw =
     (case rw of (r, w) \<Rightarrow>
        (case cleanup tmp_path (files w) of
           Inl e \<Rightarrow> (Inl e, w)
         | Inr fs' \<Rightarrow> (r, w\<lparr>files := fs'\<rparr>)))"

definition transcribe_voice ::
  "env \<Rightarrow> bot \<Rightarrow> py_str \<Rightarrow> py_dict \<Rightarrow> world \<Rightarrow> (py_exc + py_str option) \<times> world" where
  "transcribe_voice rt b voice_file_id config w =
     (let voice_cfg = dict_get config ''voice'' (PDict []) in
      case py_get voice_cfg ''openai_api_key'' (PStr []) of
        Inl e \<Rightarrow> (Inl e, w)
      | Inr api_key \<Rightarrow>
          (case py_get voice_cfg ''model'' (PStr (str ''whisper-1'')) of
             Inl e \<Rightarrow> (Inl e, w)
           | Inr model \<Rightarrow>
               if \<not> truthy api_key then (Inr None, w)
               else
                 (case try_block rt b voice_file_id api_key model w of
                    (r, tmp_path, w1) \<Rightarrow> finally_clause tmp_path (except_clause (r, w1)))))"

section \<open>The configuration of the data model\<close>

text \<open>
  The source takes any dictionary. The data model of the specification gives the fields
  types: \<^verbatim>\<open>enabled\<close> is a boolean and \<^verbatim>\<open>openai_api_key\<close> a string. A configuration
  conforms when its \<^verbatim>\<open>voice\<close> entry, if there is one, is a mapping whose two fields, if
  present, have these types.
\<close>

fun is_bool :: "pyval \<Rightarrow> bool" where
  "is_bool (PBool b) = True"
| "is_bool PNone = False"
| "is_bool (PInt i) = False"
| "is_bool (PStr s) = False"
| "is_bool (PDict d) = False"

fun is_str :: "pyval \<Rightarrow> bool" where
  "is_str (PStr s) = True"
| "is_str PNone = False"
| "is_str (PBool b) = False"
| "is_str (PInt i) = False"
| "is_str (PDict d) = False"

definition field_has :: "(pyval \<Rightarrow> bool) \<Rightarrow> py_dict \<Rightarrow> string \<Rightarrow> bool" where
  "field_has P d k = (case map_of d k of None \<Rightarrow> True | Some v \<Rightarrow> P v)"

definition conforms :: "py_dict \<Rightarrow> bool" where
  "conforms config =
     (case dict_get config ''voice'' (PDict []) of
        PDict d \<Rightarrow> field_has is_bool d ''enabled'' \<and> field_has is_str d ''openai_api_key''
      | PNone \<Rightarrow> False
      | PBool b \<Rightarrow> False
      | PInt i \<Rightarrow> False
      | PStr s \<Rightarrow> False)"

text \<open>
  The two conditions on the configuration in the words of the specification:
  \<^verbatim>\<open>config.voice.enabled\<close> is true, and \<^verbatim>\<open>config.voice.openai_api_key\<close> is a
  non-empty string.
\<close>

definition voice_field :: "py_dict \<Rightarrow> string \<Rightarrow> pyval option" where
  "voice_field config k =
     (case map_of config ''voice'' of
        Some (PDict d) \<Rightarrow> map_of d k
      | Some PNone \<Rightarrow> None
      | Some (PBool b) \<Rightarrow> None
      | Some (PInt i) \<Rightarrow> None
      | Some (PStr s) \<Rightarrow> None
      | None \<Rightarrow> None)"

definition enabled_is_true :: "py_dict \<Rightarrow> bool" where
  "enabled_is_true config = (voice_field config ''enabled'' = Some (PBool True))"

definition key_is_nonempty_string :: "py_dict \<Rightarrow> bool" where
  "key_is_nonempty_string config =
     (case voice_field config ''openai_api_key'' of
        Some (PStr s) \<Rightarrow> s \<noteq> []
      | Some PNone \<Rightarrow> False
      | Some (PBool b) \<Rightarrow> False
      | Some (PInt i) \<Rightarrow> False
      | Some (PDict d) \<Rightarrow> False
      | None \<Rightarrow> False)"

text \<open>
  The same two conditions as Python reads them: the field is present and its value counts
  as true (for a boolean, that it is \<^verbatim>\<open>True\<close>; for a string, that it is not empty; for
  a number, that it is not zero).
\<close>

definition field_truthy :: "py_dict \<Rightarrow> string \<Rightarrow> bool" where
  "field_truthy config k = (case voice_field config k of None \<Rightarrow> False | Some v \<Rightarrow> truthy v)"

section \<open>Deterministic collaborators\<close>

text \<open>
  A messaging client given by two pure functions: the metadata of a file id, and for a
  file path what the download leaves at the destination (nothing, or bytes, possibly
  partial) and whether it raises. It touches no other path.
\<close>

definition pure_bot ::
  "(py_str \<Rightarrow> py_exc + pyval) \<Rightarrow> (pyval \<Rightarrow> bytes option \<times> py_exc option) \<Rightarrow> bot" where
  "pure_bot gf dl =
     \<lparr>get_file = (\<lambda>fid fs. (gf fid, fs)),
      download_file = (\<lambda>fp dest fs.
        (case dl fp of (written, raised) \<Rightarrow>
           ((case raised of None \<Rightarrow> Inr () | Some e \<Rightarrow> Inl e),
            (case written of None \<Rightarrow> fs | Some data \<Rightarrow> fs(dest \<mapsto> File data)))))\<rparr>"

text \<open>The requests a call has added to the trace.\<close>

definition new_calls :: "world \<Rightarrow> world \<Rightarrow> call list" where
  "new_calls w w' = drop (length (calls w)) (calls w')"

section \<open>Concrete runs\<close>

text \<open>
  A small installation to run the definitions on: a bot that resolves every id and writes
  four bytes to the destination, a transcription service that answers with padded text,
  and configurations with and without the optional fields.
\<close>

definition ex_gf :: "py_str \<Rightarrow> py_exc + pyval" where
  "ex_gf fid = Inr (PStr (str ''voice/file_7.oga''))"

definition ex_dl :: "pyval \<Rightarrow> bytes option \<times> py_exc option" where
  "ex_dl fp = (Some ''OggS'', None)"

definition ex_bot :: bot where
  "ex_bot = pure_bot ex_gf ex_dl"

definition ex_client :: client where
  "ex_client model audio = Inr (PStr (str ''  hello world  ''))"

definition ex_env :: env where
  "ex_env = \<lparr>OpenAI = Some (\<lambda>key. Inr ex_client), mktemp = (\<lambda>fs. ''/tmp/tmpq3x9.ogg'')\<rparr>"

definition ex_env2 :: env where
  "ex_env2 = \<lparr>OpenAI = Some (\<lambda>key. Inr ex_client), mktemp = (\<lambda>fs. ''/tmp/tmp7hk2.ogg'')\<rparr>"

text \<open>The same installation with a service that hears nothing.\<close>

definition ex_env_silent :: env where
  "ex_env_silent =
     \<lparr>OpenAI = Some (\<lambda>key. Inr (\<lambda>model audio. Inr (PStr []))), mktemp = (\<lambda>fs. ''/tmp/tmpq3x9.ogg'')\<rparr>"

definition ex_config :: py_dict where
  "ex_config = [(''voice'', PDict [(''enabled'', PBool True), (''openai_api_key'', PStr (str ''sk-test''))])]"

definition ex_config_model :: py_dict where
  "ex_config_model =
     [(''voice'', PDict [(''enabled'', PBool True), (''openai_api_key'', PStr (str ''sk-test'')),
                         (''model'', PStr (str ''gpt-4o-transcribe''))])]"

definition ex_config_disabled :: py_dict where
  "ex_config_disabled = [(''voice'', PDict [(''enabled'', PBool False), (''openai_api_key'', PStr (str ''sk-test''))])]"

definition ex_config_intkey :: py_dict where
  "ex_config_intkey = [(''voice'', PDict [(''enabled'', PBool True), (''openai_api_key'', PInt 123)])]"

definition ex_config_nokey :: py_dict where
  "ex_config_nokey = [(''voice'', PDict [(''enabled'', PBool True)])]"

definition ex_config_novoice :: py_dict where
  "ex_config_novoice = [(''telegram'', PDict [])]"

definition ex_world :: world where
  "ex_world = \<lparr>files = Map.empty, logs = [], calls = []\<rparr>"

text \<open>A bot whose metadata request is interrupted by the cancellation of the task.\<close>

definition cancelled_bot :: bot where
  "cancelled_bot = pure_bot (\<lambda>fid. Inl CancelledError) ex_dl"

text \<open>A bot whose download breaks off with a network error, leaving a partial file.\<close>

definition failing_bot :: bot where
  "failing_bot = pure_bot ex_gf (\<lambda>fp. (Some ''Og'', Some (OtherException ''network'')))"

text \<open>
  A bot whose download returns normally and leaves a directory at the destination, and
  one that leaves a file there that the process may not delete.
\<close>

definition dir_bot :: bot where
  "dir_bot =
     \<lparr>get_file = (\<lambda>fid fs. (ex_gf fid, fs)),
      download_file = (\<lambda>fp dest fs. (Inr (), fs(dest \<mapsto> Dir 4096)))\<rparr>"

definition protecting_bot :: bot where
  "protecting_bot =
     \<lparr>get_file = (\<lambda>fid fs. (ex_gf fid, fs)),
      download_file = (\<lambda>fp dest fs. (Inr (), fs(dest \<mapsto> Protected_file ''OggS'')))\<rparr>"

section \<open>Basic facts\<close>

lemmas ex_defs = ex_gf_def ex_dl_def ex_bot_def ex_client_def ex_env_def ex_env2_def ex_config_def
  ex_config_model_def ex_config_disabled_def ex_config_nokey_def ex_config_novoice_def ex_world_def
  cancelled_bot_def failing_bot_def pure_bot_def str_def ex_env_silent_def
  ex_config_intkey_def dir_bot_def protecting_bot_def

lemmas tv_defs = transcribe_voice_def try_block_def transcribe_step_def except_clause_def
  finally_clause_def cleanup_def dict_get_def Let_def called_def logged_def exists_def
  unlink_def
  stat_st_size_def open_rb_def

text \<open>
  \<open>strip\<close> takes whitespace off both ends and nothing else: the string is the result
  between two runs of whitespace, and a result that is not empty begins and ends with a
  character that is not whitespace.
\<close>

lemma strip_decomp:
  "s = takeWhile py_isspace s @ strip s @ rev (takeWhile py_isspace (rev (dropWhile py_isspace s)))"
proof -
  let ?b = "dropWhile py_isspace s"
  have "?b = rev (takeWhile py_isspace (rev ?b) @ dropWhile py_isspace (rev ?b))"
    by (simp only: takeWhile_dropWhile_id rev_rev_ident)
  also have "\<dots> = strip s @ rev (takeWhile py_isspace (rev ?b))"
    by (simp only: rev_append strip_def)
  finally have "?b = strip s @ rev (takeWhile py_isspace (rev ?b))" .
  moreover have "s = takeWhile py_isspace s @ ?b"
    by simp
  ultimately show ?thesis by metis
qed

lemma strip_padding:
  "\<forall>c\<in>set (takeWhile py_isspace s). py_isspace c"
  "\<forall>c\<in>set (rev (takeWhile py_isspace (rev (dropWhile py_isspace s)))). py_isspace c"
  by (auto dest: set_takeWhileD)

lemma strip_last: "strip s \<noteq> [] \<Longrightarrow> \<not> py_isspace (last (strip s))"
  by (simp add: strip_def last_rev hd_dropWhile)

lemma strip_hd: "strip s \<noteq> [] \<Longrightarrow> \<not> py_isspace (hd (strip s))"
proof -
  assume ne: "strip s \<noteq> []"
  let ?b = "dropWhile py_isspace s"
  have "strip s = []" if "?b = []"
    unfolding strip_def that by (simp only: rev.simps dropWhile.simps)
  with ne have b: "?b \<noteq> []" by blast
  have "dropWhile py_isspace (rev ?b) \<noteq> []" using ne by (simp add: strip_def)
  then have "last (dropWhile py_isspace (rev ?b)) = last (rev ?b)"
    by (metis append_is_Nil_conv last_appendR takeWhile_dropWhile_id)
  then have "hd (strip s) = hd ?b"
    using b by (simp add: strip_def hd_rev last_rev)
  with b show ?thesis by (simp add: hd_dropWhile)
qed

lemma logged_simps:
  "files (logged r w) = files w" "calls (logged r w) = calls w" "logs (logged r w) = logs w @ [r]"
  by (simp_all add: logged_def)

lemma called_simps:
  "files (called c w) = files w" "calls (called c w) = calls w @ [c]" "logs (called c w) = logs w"
  by (simp_all add: called_def)

lemma transcribe_step_files: "files (snd (transcribe_step rt k m p w)) = files w"
  by (simp add: transcribe_step_def Let_def logged_simps called_simps split: sum.splits option.splits)

lemma transcribe_step_calls:
  "\<exists>cs. calls (snd (transcribe_step rt k m p w)) = calls w @ cs \<and>
        (\<forall>c\<in>set cs. c = OpenAI_init k \<or> (\<exists>a. c = Create m a))"
  by (auto simp add: transcribe_step_def Let_def logged_simps called_simps split: sum.splits option.splits)

lemma try_block_calls:
  assumes "try_block rt b fid k m w = (r, tp, w1)"
  shows "\<exists>cs. calls w1 = calls w @ Get_file fid # cs \<and>
        (\<forall>c\<in>set cs. (\<exists>fp p. c = Download_file fp p \<and> tp = Some p) \<or> c = OpenAI_init k \<or> (\<exists>a. c = Create m a))"
proof -
  obtain g fs1 where G: "get_file b fid (files w) = (g, fs1)"
    by (cases "get_file b fid (files w)")
  show ?thesis
  proof (cases g)
    case (Inl e)
    with G assms show ?thesis
      by (auto simp add: try_block_def Let_def called_simps)
  next
    case (Inr fp)
    define p where "p = mktemp rt fs1"
    define w2 where "w2 = called (Download_file fp p) (called (Get_file fid) w\<lparr>files := fs1\<rparr>)"
    obtain d fs2 where D: "download_file b fp p fs1 = (d, fs2)"
      by (cases "download_file b fp p fs1")
    have c2: "calls w2 = calls w @ [Get_file fid, Download_file fp p]"
      by (simp add: w2_def called_simps)
    show ?thesis
    proof (cases d)
      case (Inl e)
      with G Inr D assms c2 show ?thesis
        by (auto simp add: try_block_def Let_def called_simps p_def w2_def)
    next
      case (Inr u)
      obtain cs where cs: "calls (snd (transcribe_step rt k m p (w2\<lparr>files := fs2\<rparr>))) = calls (w2\<lparr>files := fs2\<rparr>) @ cs"
        "\<forall>c\<in>set cs. c = OpenAI_init k \<or> (\<exists>a. c = Create m a)"
        using transcribe_step_calls [of rt k m p "w2\<lparr>files := fs2\<rparr>"] by blast
      from G \<open>g = Inr fp\<close> D Inr assms
      have "w1 = snd (transcribe_step rt k m p (w2\<lparr>files := fs2\<rparr>))" "tp = Some p"
        by (auto simp add: try_block_def Let_def called_simps p_def w2_def split: prod.splits)
      with cs c2 have "calls w1 = calls w @ Get_file fid # (Download_file fp p # cs)"
        by simp
      moreover have "\<forall>c\<in>set (Download_file fp p # cs). (\<exists>fp p. c = Download_file fp p \<and> tp = Some p) \<or> c = OpenAI_init k \<or> (\<exists>a. c = Create m a)"
        using cs(2) \<open>tp = Some p\<close> by auto
      ultimately show ?thesis by blast
    qed
  qed
qed

lemma except_clause_simps:
  "files (snd (except_clause (r, w))) = files w"
  "calls (snd (except_clause (r, w))) = calls w"
  by (simp_all add: except_clause_def logged_simps split: sum.splits)

text \<open>The cleanup: when it succeeds, and what it leaves.\<close>

lemma cleanup_removes: "cleanup (Some p) fs = Inr fs' \<Longrightarrow> fs' p = None"
  by (auto simp add: cleanup_def exists_def unlink_def split: if_splits option.splits node.splits)

lemma cleanup_result:
  "cleanup tp fs = Inr fs' \<Longrightarrow> fs' = (case tp of None \<Rightarrow> fs | Some p \<Rightarrow> fs(p := None))"
  by (auto simp add: cleanup_def exists_def unlink_def split: if_splits option.splits node.splits)

lemma cleanup_file: "fs p = Some (File data) \<Longrightarrow> cleanup (Some p) fs = Inr (fs(p := None))"
  by (simp add: cleanup_def exists_def unlink_def)

lemma cleanup_absent: "fs p = None \<Longrightarrow> cleanup (Some p) fs = Inr fs"
  by (simp add: cleanup_def exists_def)

lemma cleanup_raises:
  "cleanup tp fs = Inl e \<Longrightarrow> \<exists>p. tp = Some p \<and> exists p fs \<and> unlink p fs = Inl e"
  by (auto simp add: cleanup_def split: if_splits option.splits)

lemma finally_clause_calls: "calls (snd (finally_clause tp rw)) = calls (snd rw)"
  by (cases rw) (simp add: finally_clause_def split: sum.splits)


lemma finally_clause_result:
  "fst (finally_clause tp rw) =
     (case cleanup tp (files (snd rw)) of Inl e \<Rightarrow> Inl e | Inr fs' \<Rightarrow> fst rw)"
  by (cases rw) (simp add: finally_clause_def split: sum.splits)

lemma finally_clause_files:
  "files (snd (finally_clause tp rw)) =
     (case cleanup tp (files (snd rw)) of Inl e \<Rightarrow> files (snd rw) | Inr fs' \<Rightarrow> fs')"
  by (cases rw) (simp add: finally_clause_def split: sum.splits)

text \<open>The shape of a call that passes the key guard.\<close>

lemma transcribe_voice_guarded:
  assumes "dict_get config ''voice'' (PDict []) = PDict d"
    and "truthy (dict_get d ''openai_api_key'' (PStr []))"
    and "try_block rt b fid (dict_get d ''openai_api_key'' (PStr []))
           (dict_get d ''model'' (PStr (str ''whisper-1''))) w = (r, tp, w1)"
  shows "transcribe_voice rt b fid config w = finally_clause tp (except_clause (r, w1))"
  using assms by (simp add: transcribe_voice_def)

text \<open>Every run is of one of three kinds.\<close>

lemma transcribe_voice_cases:
  obtains (raised) e where "transcribe_voice rt b fid config w = (Inl e, w)"
    "\<forall>d. dict_get config ''voice'' (PDict []) \<noteq> PDict d"
  | (guard) d where "dict_get config ''voice'' (PDict []) = PDict d"
      "\<not> truthy (dict_get d ''openai_api_key'' (PStr []))"
      "transcribe_voice rt b fid config w = (Inr None, w)"
  | (run) d r tp w1 where "dict_get config ''voice'' (PDict []) = PDict d"
      "truthy (dict_get d ''openai_api_key'' (PStr []))"
      "try_block rt b fid (dict_get d ''openai_api_key'' (PStr []))
         (dict_get d ''model'' (PStr (str ''whisper-1''))) w = (r, tp, w1)"
      "transcribe_voice rt b fid config w = finally_clause tp (except_clause (r, w1))"
proof (cases "dict_get config ''voice'' (PDict [])")
  case (PDict d)
  show ?thesis
  proof (cases "truthy (dict_get d ''openai_api_key'' (PStr []))")
    case True
    obtain r tp w1 where T: "try_block rt b fid (dict_get d ''openai_api_key'' (PStr []))
         (dict_get d ''model'' (PStr (str ''whisper-1''))) w = (r, tp, w1)"
      using prod_cases3 by blast
    show ?thesis
      using run [OF PDict True T] transcribe_voice_guarded [OF PDict True T] by blast
  next
    case False
    with PDict show ?thesis
      by (intro guard [of d]) (simp_all add: transcribe_voice_def)
  qed
qed (auto intro: raised simp add: transcribe_voice_def)

lemma new_calls_append: "calls w' = calls w @ cs \<Longrightarrow> new_calls w w' = cs"
  by (simp add: new_calls_def)

lemma voice_field_dict:
  "dict_get config ''voice'' (PDict []) = PDict d \<Longrightarrow> voice_field config k = map_of d k"
  by (auto simp add: voice_field_def dict_get_def split: option.splits pyval.splits)

lemma transcribe_step_nonempty: "fst (transcribe_step rt k m p w) \<noteq> Inr (Some [])"
  by (simp add: transcribe_step_def Let_def split: sum.splits option.splits)

lemma try_block_nonempty: "fst (try_block rt b fid k m w) \<noteq> Inr (Some [])"
  by (simp add: try_block_def Let_def case_prod_beta transcribe_step_nonempty split: sum.splits)

lemma except_clause_nonempty: "r \<noteq> Inr (Some []) \<Longrightarrow> fst (except_clause (r, w)) \<noteq> Inr (Some [])"
  by (auto simp add: except_clause_def split: sum.splits)

lemma transcribe_voice_nonempty: "fst (transcribe_voice rt b fid config w) \<noteq> Inr (Some [])"
proof (cases rule: transcribe_voice_cases [of rt b fid config w])
  case (raised e)
  then show ?thesis by simp
next
  case (guard d)
  then show ?thesis by simp
next
  case (run d r tp w1)
  have "r \<noteq> Inr (Some [])"
    using try_block_nonempty [of rt b fid "dict_get d ''openai_api_key'' (PStr [])"
        "dict_get d ''model'' (PStr (str ''whisper-1''))" w] run(3) by simp
  then show ?thesis
    by (simp add: run(4) finally_clause_result except_clause_nonempty split: sum.splits)
qed

lemma transcribe_step_success:
  assumes "files w p = Some (File audio)" "OpenAI rt = Some ctor" "ctor k = Inr cl"
    "cl m audio = Inr (PStr t)"
  shows "fst (transcribe_step rt k m p w) = Inr (if strip t = [] then None else Some (strip t))"
  using assms
  by (simp add: transcribe_step_def Let_def stat_st_size_def open_rb_def logged_simps called_simps)

lemma try_block_unfold:
  "try_block rt b fid k m w =
     (case get_file b fid (files w) of
        (Inl e, fs1) \<Rightarrow> (Inl e, None, called (Get_file fid) w\<lparr>files := fs1\<rparr>)
      | (Inr fp, fs1) \<Rightarrow>
          (case download_file b fp (mktemp rt fs1) fs1 of
             (Inl e, fs2) \<Rightarrow>
               (Inl e, Some (mktemp rt fs1),
                called (Download_file fp (mktemp rt fs1)) (called (Get_file fid) w)\<lparr>files := fs2\<rparr>)
           | (Inr u, fs2) \<Rightarrow>
               (fst (transcribe_step rt k m (mktemp rt fs1)
                  (called (Download_file fp (mktemp rt fs1)) (called (Get_file fid) w)\<lparr>files := fs2\<rparr>)),
                Some (mktemp rt fs1),
                snd (transcribe_step rt k m (mktemp rt fs1)
                  (called (Download_file fp (mktemp rt fs1)) (called (Get_file fid) w)\<lparr>files := fs2\<rparr>)))))"
  by (simp add: try_block_def Let_def called_def split: prod.splits sum.splits)

lemma transcribe_voice_success:
  assumes "dict_get config ''voice'' (PDict []) = PDict d"
    and "truthy (dict_get d ''openai_api_key'' (PStr []))"
    and "get_file b fid (files w) = (Inr fp, fs1)"
    and "download_file b fp (mktemp rt fs1) fs1 = (Inr u, fs2)"
    and "fs2 (mktemp rt fs1) = Some (File audio)"
    and "OpenAI rt = Some ctor"
    and "ctor (dict_get d ''openai_api_key'' (PStr [])) = Inr cl"
    and "cl (dict_get d ''model'' (PStr (str ''whisper-1''))) audio = Inr (PStr t)"
  shows "fst (transcribe_voice rt b fid config w) = Inr (if strip t = [] then None else Some (strip t))"
proof -
  let ?k = "dict_get d ''openai_api_key'' (PStr [])"
  let ?m = "dict_get d ''model'' (PStr (str ''whisper-1''))"
  let ?p = "mktemp rt fs1"
  define w2 where "w2 = called (Download_file fp ?p) (called (Get_file fid) w)\<lparr>files := fs2\<rparr>"
  have f: "files w2 ?p = Some (File audio)"
    by (simp add: w2_def assms(5))
  have T: "try_block rt b fid ?k ?m w =
      (fst (transcribe_step rt ?k ?m ?p w2), Some ?p, snd (transcribe_step rt ?k ?m ?p w2))"
    by (simp add: try_block_unfold assms(3,4) w2_def)
  have r: "fst (transcribe_step rt ?k ?m ?p w2) = Inr (if strip t = [] then None else Some (strip t))"
    by (rule transcribe_step_success [OF f assms(6,7,8)])
  have c: "cleanup (Some ?p) (files (snd (transcribe_step rt ?k ?m ?p w2))) = Inr ((files w2)(?p := None))"
    using f by (simp add: transcribe_step_files cleanup_def exists_def unlink_def)
  show ?thesis
    unfolding transcribe_voice_guarded [OF assms(1,2) T] finally_clause_result
    by (simp add: except_clause_simps c r except_clause_def)
qed

lemma is_available_TrueD:
  assumes "fst (is_available rt config lg) = Inr True"
  obtains d where "dict_get config ''voice'' (PDict []) = PDict d"
    "truthy (dict_get d ''enabled'' (PBool False))" "HAS_OPENAI rt"
    "truthy (dict_get d ''openai_api_key'' PNone)"
proof (cases "dict_get config ''voice'' (PDict [])")
  case (PDict d)
  with assms have "truthy (dict_get d ''enabled'' (PBool False)) \<and> HAS_OPENAI rt \<and>
      truthy (dict_get d ''openai_api_key'' PNone)"
    by (auto simp add: is_available_def split: if_splits)
  with PDict that show ?thesis by blast
qed (use assms in \<open>simp_all add: is_available_def\<close>)

lemma truthy_key_default:
  "truthy (dict_get d k PNone) \<Longrightarrow> truthy (dict_get d k (PStr []))"
  by (cases "map_of d k") (simp_all add: dict_get_def)

lemma pure_bot_simps:
  "get_file (pure_bot gf dl) fid fs = (gf fid, fs)"
  "dl fp = (None, None) \<Longrightarrow> download_file (pure_bot gf dl) fp dest fs = (Inr (), fs)"
  "dl fp = (Some data, None) \<Longrightarrow>
     download_file (pure_bot gf dl) fp dest fs = (Inr (), fs(dest \<mapsto> File data))"
  "dl fp = (None, Some e) \<Longrightarrow> download_file (pure_bot gf dl) fp dest fs = (Inl e, fs)"
  "dl fp = (Some data, Some e) \<Longrightarrow>
     download_file (pure_bot gf dl) fp dest fs = (Inl e, fs(dest \<mapsto> File data))"
  by (simp_all add: pure_bot_def)

text \<open>
  With a pure messaging client the file system changes at the temporary path only, and
  what is put there is a regular file.
\<close>

lemma pure_try_block_files:
  assumes "try_block rt (pure_bot gf dl) fid k m w = (r, tp, w1)"
  shows "(tp = None \<and> files w1 = files w) \<or>
         (tp = Some (mktemp rt (files w)) \<and>
          (files w1 = files w \<or>
           (\<exists>data. files w1 = (files w)(mktemp rt (files w) \<mapsto> File data))))"
proof (cases "gf fid")
  case (Inl e)
  with assms show ?thesis
    by (auto simp add: try_block_unfold pure_bot_simps called_simps)
next
  case (Inr fp)
  obtain written raised where D: "dl fp = (written, raised)"
    by (cases "dl fp")
  from assms Inr D show ?thesis
    by (cases raised; cases written)
      (auto simp add: try_block_unfold pure_bot_simps called_simps transcribe_step_files)
qed

text \<open>
  So, when the temporary path was free, the cleanup succeeds and gives back the file
  system the call started in.
\<close>

lemma pure_cleanup:
  assumes "try_block rt (pure_bot gf dl) fid k m w = (r, tp, w1)"
    and "files w (mktemp rt (files w)) = None"
  shows "cleanup tp (files w1) = Inr (files w)"
proof -
  let ?p = "mktemp rt (files w)"
  have f: "(files w)(?p := None) = files w"
    using assms(2) by auto
  from pure_try_block_files [OF assms(1)]
  consider "tp = None" "files w1 = files w"
    | "tp = Some ?p" "files w1 = files w"
    | data where "tp = Some ?p" "files w1 = (files w)(?p \<mapsto> File data)"
    by blast
  then show ?thesis
  proof cases
    case 1
    then show ?thesis by (simp add: cleanup_def)
  next
    case 2
    then show ?thesis by (simp add: cleanup_absent assms(2))
  next
    case 3
    have "cleanup (Some ?p) ((files w)(?p \<mapsto> File data)) = Inr (((files w)(?p \<mapsto> File data))(?p := None))"
      by (rule cleanup_file) simp
    with 3 f show ?thesis by simp
  qed
qed

lemma pure_files_restored:
  assumes "files w (mktemp rt (files w)) = None"
  shows "files (snd (transcribe_voice rt (pure_bot gf dl) fid config w)) = files w"
proof (cases rule: transcribe_voice_cases [of rt "pure_bot gf dl" fid config w])
  case (raised e)
  then show ?thesis by simp
next
  case (guard d)
  then show ?thesis by simp
next
  case (run d r tp w1)
  show ?thesis
    by (simp add: run(4) finally_clause_files except_clause_simps pure_cleanup [OF run(3) assms])
qed

lemma pure_destination:
  assumes "Download_file fp p \<in> set (new_calls w (snd (transcribe_voice rt (pure_bot gf dl) fid config w)))"
  shows "p = mktemp rt (files w)"
proof (cases rule: transcribe_voice_cases [of rt "pure_bot gf dl" fid config w])
  case (raised e)
  with assms show ?thesis by (simp add: new_calls_def)
next
  case (guard d)
  with assms show ?thesis by (simp add: new_calls_def)
next
  case (run d r tp w1)
  obtain cs where cs: "calls w1 = calls w @ Get_file fid # cs"
    "\<forall>c\<in>set cs. (\<exists>fp p. c = Download_file fp p \<and> tp = Some p) \<or>
        c = OpenAI_init (dict_get d ''openai_api_key'' (PStr [])) \<or>
        (\<exists>a. c = Create (dict_get d ''model'' (PStr (str ''whisper-1''))) a)"
    using try_block_calls [OF run(3)] by blast
  have "calls (snd (transcribe_voice rt (pure_bot gf dl) fid config w)) = calls w @ Get_file fid # cs"
    by (simp add: run(4) finally_clause_calls except_clause_simps cs(1))
  then have "new_calls w (snd (transcribe_voice rt (pure_bot gf dl) fid config w)) = Get_file fid # cs"
    by (rule new_calls_append)
  with assms have "Download_file fp p \<in> set cs" by simp
  with cs(2) have "tp = Some p" by auto
  with pure_try_block_files [OF run(3)] show ?thesis by auto
qed

lemma transcribe_voice_calls:
  "\<exists>cs. calls (snd (transcribe_voice rt b fid config w)) = calls w @ cs"
proof (cases rule: transcribe_voice_cases [of rt b fid config w])
  case (run d r tp w1)
  obtain cs where "calls w1 = calls w @ Get_file fid # cs"
    using try_block_calls [OF run(3)] by blast
  then show ?thesis
    by (simp add: run(4) finally_clause_calls except_clause_simps)
qed simp_all

text \<open>What a call with a pure messaging client returns, without the world.\<close>

lemma pure_transcribe_voice_result:
  assumes "files w (mktemp rt (files w)) = None"
  shows "fst (transcribe_voice rt (pure_bot gf dl) fid config w) =
     (case py_get (dict_get config ''voice'' (PDict [])) ''openai_api_key'' (PStr []) of
        Inl e \<Rightarrow> Inl e
      | Inr k \<Rightarrow>
          (case py_get (dict_get config ''voice'' (PDict [])) ''model'' (PStr (str ''whisper-1'')) of
             Inl e \<Rightarrow> Inl e
           | Inr m \<Rightarrow>
               if \<not> truthy k then Inr None
               else fst (except_clause (fst (try_block rt (pure_bot gf dl) fid k m w),
                                        snd (snd (try_block rt (pure_bot gf dl) fid k m w))))))"
proof -
  have c: "cleanup (fst (snd (try_block rt (pure_bot gf dl) fid k m w)))
        (files (snd (snd (try_block rt (pure_bot gf dl) fid k m w)))) = Inr (files w)" for k m
    using pure_cleanup [where gf = gf and dl = dl and fid = fid and k = k and m = m
        and r = "fst (try_block rt (pure_bot gf dl) fid k m w)"
        and tp = "fst (snd (try_block rt (pure_bot gf dl) fid k m w))"
        and ?w1.0 = "snd (snd (try_block rt (pure_bot gf dl) fid k m w))", OF _ assms]
    by simp
  show ?thesis
    by (simp add: transcribe_voice_def Let_def case_prod_beta finally_clause_result
        except_clause_simps c split: sum.splits)
qed

lemma step_outcome:
  assumes "OpenAI rt2 = OpenAI rt1" and "files w p = files w' p'"
  shows "fst (except_clause (transcribe_step rt1 k m p w)) =
         fst (except_clause (transcribe_step rt2 k m p' w'))"
proof (cases "files w p")
  case None
  with assms show ?thesis
    by (simp add: transcribe_step_def except_clause_def stat_st_size_def)
next
  case (Some n)
  with assms have s': "files w' p' = Some n" by simp
  show ?thesis
    using Some s' assms(1)
    by (cases n)
      (simp_all add: transcribe_step_def except_clause_def stat_st_size_def open_rb_def Let_def
        logged_simps called_simps split: option.splits sum.splits)
qed

lemma pure_outcome:
  assumes "OpenAI rt2 = OpenAI rt1"
    and "files w (mktemp rt1 (files w)) = None"
    and "files w' (mktemp rt2 (files w')) = None"
  shows "fst (except_clause (fst (try_block rt1 (pure_bot gf dl) fid k m w),
                             snd (snd (try_block rt1 (pure_bot gf dl) fid k m w)))) =
         fst (except_clause (fst (try_block rt2 (pure_bot gf dl) fid k m w'),
                             snd (snd (try_block rt2 (pure_bot gf dl) fid k m w'))))"
proof (cases "gf fid")
  case (Inl e)
  then show ?thesis
    by (simp add: try_block_unfold pure_bot_simps except_clause_def)
next
  case (Inr fp)
  obtain written raised where D: "dl fp = (written, raised)"
    by (cases "dl fp")
  show ?thesis
  proof (cases raised)
    case (Some e)
    with Inr D show ?thesis
      by (cases written) (simp_all add: try_block_unfold pure_bot_simps except_clause_def)
  next
    case None
    show ?thesis
    proof (cases written)
      case None
      with Inr D \<open>raised = None\<close> show ?thesis
        by (simp add: try_block_unfold pure_bot_simps)
          (rule step_outcome [OF assms(1)], simp add: called_simps assms(2,3))
    next
      case (Some data)
      with Inr D \<open>raised = None\<close> show ?thesis
        by (simp add: try_block_unfold pure_bot_simps)
          (rule step_outcome [OF assms(1)], simp add: called_simps)
    qed
  qed
qed

lemma pure_result_indep:
  assumes "OpenAI rt2 = OpenAI rt1"
    and "files w (mktemp rt1 (files w)) = None"
    and "files w' (mktemp rt2 (files w')) = None"
  shows "fst (transcribe_voice rt2 (pure_bot gf dl) fid config w') =
         fst (transcribe_voice rt1 (pure_bot gf dl) fid config w)"
  unfolding pure_transcribe_voice_result [OF assms(2)] pure_transcribe_voice_result [OF assms(3)]
  by (simp add: pure_outcome [OF assms] split: sum.splits)

text \<open>
  A run in which every step succeeds and the transcript is there, but the file at the
  temporary path may not be deleted: the caller gets the \<^verbatim>\<open>PermissionError\<close> of the
  cleanup instead of the transcript.
\<close>

lemma undeletable_file_run:
  "fst (transcribe_voice ex_env protecting_bot (str ''f1'') ex_config ex_world) =
     Inl (PermissionError ''/tmp/tmpq3x9.ogg'')"
  by (simp add: ex_defs tv_defs strip_def py_isspace_def)

section \<open>The availability check\<close>

text \<open>
  C3, as the source has it. \<^verbatim>\<open>is_available\<close> tests the truth value of the two fields,
  not their types. On a configuration whose \<^verbatim>\<open>voice\<close> entry is absent or a mapping it
  raises nothing and returns true exactly when \<^verbatim>\<open>config.voice.enabled\<close> counts as true,
  the OpenAI client library was importable and \<^verbatim>\<open>config.voice.openai_api_key\<close> counts as
  true, and false as soon as one of the three fails. When the configuration conforms to
  the data model, so that \<^verbatim>\<open>enabled\<close> is a boolean and the key a string, this is:
  \<^verbatim>\<open>enabled\<close> is true and the key is a non-empty string.
\<close>

theorem is_available_iff:
  assumes "dict_get config ''voice'' (PDict []) = PDict d"
  shows "fst (is_available rt config lg) =
           Inr (field_truthy config ''enabled'' \<and> HAS_OPENAI rt \<and>
                field_truthy config ''openai_api_key'') \<and>
         (conforms config \<longrightarrow>
            fst (is_available rt config lg) =
              Inr (enabled_is_true config \<and> HAS_OPENAI rt \<and> key_is_nonempty_string config))"
proof -
  note vf = voice_field_dict [OF assms]
  have E: "truthy (dict_get d ''enabled'' (PBool False)) = field_truthy config ''enabled''"
    by (simp add: field_truthy_def vf dict_get_def split: option.splits)
  have K: "truthy (dict_get d ''openai_api_key'' PNone) = field_truthy config ''openai_api_key''"
    by (simp add: field_truthy_def vf dict_get_def split: option.splits)
  have 1: "fst (is_available rt config lg) =
           Inr (field_truthy config ''enabled'' \<and> HAS_OPENAI rt \<and>
                field_truthy config ''openai_api_key'')"
    using E K by (simp add: is_available_def assms)
  have 2: "field_truthy config ''enabled'' = enabled_is_true config \<and>
           field_truthy config ''openai_api_key'' = key_is_nonempty_string config"
    if c: "conforms config"
  proof -
    from c assms have en: "field_has is_bool d ''enabled''"
      and key: "field_has is_str d ''openai_api_key''"
      by (simp_all add: conforms_def)
    have "field_truthy config ''enabled'' = enabled_is_true config"
      using en by (cases "map_of d ''enabled''"; cases "the (map_of d ''enabled'')")
        (auto simp add: enabled_is_true_def field_truthy_def vf field_has_def)
    moreover have "field_truthy config ''openai_api_key'' = key_is_nonempty_string config"
      using key by (cases "map_of d ''openai_api_key''"; cases "the (map_of d ''openai_api_key'')")
        (auto simp add: key_is_nonempty_string_def field_truthy_def vf field_has_def)
    ultimately show ?thesis by simp
  qed
  show ?thesis
    using 1 2 by simp
qed

theorem is_available_iff_witness:
  "fst (is_available ex_env ex_config []) = Inr True \<and>
   field_truthy ex_config ''enabled'' \<and> HAS_OPENAI ex_env \<and>
   field_truthy ex_config ''openai_api_key'' \<and> conforms ex_config \<and>
   enabled_is_true ex_config \<and> key_is_nonempty_string ex_config"
proof -
  have d: "dict_get ex_config ''voice'' (PDict []) =
      PDict [(''enabled'', PBool True), (''openai_api_key'', PStr (str ''sk-test''))]"
    by (simp add: ex_config_def dict_get_def)
  have c: "conforms ex_config"
    by (simp add: ex_config_def conforms_def field_has_def dict_get_def)
  have e: "enabled_is_true ex_config" "key_is_nonempty_string ex_config"
    "field_truthy ex_config ''enabled''" "field_truthy ex_config ''openai_api_key''"
    "HAS_OPENAI ex_env"
    by (simp_all add: ex_config_def ex_env_def enabled_is_true_def key_is_nonempty_string_def
        field_truthy_def voice_field_def HAS_OPENAI_def str_def)
  from is_available_iff [OF d, of ex_env "[]"] c e
  have "fst (is_available ex_env ex_config []) = Inr True"
    by (simp only: simp_thms)
  with c e show ?thesis by (simp only: simp_thms)
qed

text \<open>
  C3, as stated, fails: with the key \<^verbatim>\<open>123\<close>, a number and not a string,
  \<^verbatim>\<open>is_available\<close> returns true.
\<close>

theorem is_available_int_key:
  "fst (is_available ex_env ex_config_intkey []) = Inr True \<and>
   \<not> key_is_nonempty_string ex_config_intkey"
  by (simp add: is_available_def ex_config_intkey_def ex_env_def dict_get_def HAS_OPENAI_def
      key_is_nonempty_string_def voice_field_def)

text \<open>
  C6. When \<^verbatim>\<open>config.voice.enabled\<close> is false (or absent, or any other false value),
  \<^verbatim>\<open>is_available\<close> returns false and the log is as it was: no warning is written.
\<close>

theorem is_available_disabled_silent:
  assumes "dict_get config ''voice'' (PDict []) = PDict d"
    and "\<not> truthy (dict_get d ''enabled'' (PBool False))"
  shows "is_available rt config lg = (Inr False, lg)"
  using assms by (simp add: is_available_def)

theorem is_available_disabled_silent_witness:
  "is_available ex_env ex_config_disabled [] = (Inr False, [])"
  using is_available_disabled_silent [of ex_config_disabled
      "[(''enabled'', PBool False), (''openai_api_key'', PStr (str ''sk-test''))]" ex_env "[]"]
  by (simp add: ex_defs dict_get_def)

text \<open>
  C9. A configuration without a \<^verbatim>\<open>voice\<close> key: \<^verbatim>\<open>is_available\<close> returns false,
  raising nothing and logging nothing, and \<^verbatim>\<open>transcribe_voice\<close> returns \<^verbatim>\<open>None\<close>
  in an unchanged world, so without a request to any collaborator.
\<close>

theorem no_voice_key:
  assumes "map_of config ''voice'' = None"
  shows "is_available rt config lg = (Inr False, lg) \<and>
         transcribe_voice rt b fid config w = (Inr None, w)"
  using assms by (simp add: is_available_def transcribe_voice_def dict_get_def)

theorem no_voice_key_witness:
  "is_available ex_env ex_config_novoice [] = (Inr False, []) \<and>
   transcribe_voice ex_env ex_bot (str ''f1'') ex_config_novoice ex_world = (Inr None, ex_world)"
  using no_voice_key [of ex_config_novoice ex_env "[]" ex_bot "str ''f1''" ex_world]
  by (simp add: ex_config_novoice_def)

section \<open>The transcription call\<close>

text \<open>
  C5. When \<^verbatim>\<open>config.voice.openai_api_key\<close> is empty or missing, \<^verbatim>\<open>transcribe_voice\<close>
  returns \<^verbatim>\<open>None\<close> and the world is the one it started in: no request to the messaging
  client or to the transcription service, no temporary file, no log record.
\<close>

theorem empty_key_returns_immediately:
  assumes "dict_get config ''voice'' (PDict []) = PDict d"
    and "\<not> truthy (dict_get d ''openai_api_key'' (PStr []))"
  shows "transcribe_voice rt b fid config w = (Inr None, w)"
  using assms by (simp add: transcribe_voice_def)

theorem empty_key_returns_immediately_witness:
  "transcribe_voice ex_env ex_bot (str ''f1'') ex_config_nokey ex_world = (Inr None, ex_world)"
  using empty_key_returns_immediately [of ex_config_nokey "[(''enabled'', PBool True)]"
      ex_env ex_bot "str ''f1''" ex_world]
  by (simp add: ex_config_nokey_def dict_get_def)

text \<open>
  C2, as the source has it. The path of the temporary file is the destination handed to
  \<^verbatim>\<open>download_file\<close>, the only place where the call creates a file. Whenever the call
  returns (a transcript, \<^verbatim>\<open>None\<close> for an empty transcript or after a caught failure,
  the early return), nothing exists at that path afterwards. The deletion in the
  \<^verbatim>\<open>finally\<close> block is not guarded: something is left at the path only when
  \<^verbatim>\<open>unlink\<close> itself raised, and then the call ends with that exception.
\<close>

theorem tmp_file_removed:
  assumes "Download_file fp p \<in> set (new_calls w (snd (transcribe_voice rt b fid config w)))"
  shows "(\<forall>v. fst (transcribe_voice rt b fid config w) = Inr v \<longrightarrow>
            files (snd (transcribe_voice rt b fid config w)) p = None) \<and>
         (files (snd (transcribe_voice rt b fid config w)) p \<noteq> None \<longrightarrow>
            (\<exists>e. fst (transcribe_voice rt b fid config w) = Inl e \<and>
                 unlink p (files (snd (transcribe_voice rt b fid config w))) = Inl e))"
proof (cases rule: transcribe_voice_cases [of rt b fid config w])
  case (raised e)
  with assms show ?thesis by (simp add: new_calls_def)
next
  case (guard d)
  with assms show ?thesis by (simp add: new_calls_def)
next
  case (run d r tp w1)
  obtain cs where cs: "calls w1 = calls w @ Get_file fid # cs"
    "\<forall>c\<in>set cs. (\<exists>fp p. c = Download_file fp p \<and> tp = Some p) \<or>
        c = OpenAI_init (dict_get d ''openai_api_key'' (PStr [])) \<or>
        (\<exists>a. c = Create (dict_get d ''model'' (PStr (str ''whisper-1''))) a)"
    using try_block_calls [OF run(3)] by blast
  have "calls (snd (transcribe_voice rt b fid config w)) = calls w @ Get_file fid # cs"
    by (simp add: run(4) finally_clause_calls except_clause_simps cs(1))
  then have "new_calls w (snd (transcribe_voice rt b fid config w)) = Get_file fid # cs"
    by (rule new_calls_append)
  with assms have "Download_file fp p \<in> set cs" by simp
  with cs(2) have tp: "tp = Some p" by auto
  show ?thesis
  proof (cases "cleanup (Some p) (files w1)")
    case (Inr fs')
    then have "files (snd (transcribe_voice rt b fid config w)) p = None"
      by (simp add: run(4) tp finally_clause_files except_clause_simps cleanup_removes)
    then show ?thesis by simp
  next
    case (Inl e)
    then have "unlink p (files w1) = Inl e"
      by (auto dest: cleanup_raises)
    with Inl show ?thesis
      by (simp add: run(4) tp finally_clause_files finally_clause_result except_clause_simps)
  qed
qed

theorem tmp_file_removed_witness:
  "Download_file (PStr (str ''voice/file_7.oga'')) ''/tmp/tmpq3x9.ogg''
     \<in> set (new_calls ex_world (snd (transcribe_voice ex_env failing_bot (str ''f1'') ex_config ex_world))) \<and>
   fst (transcribe_voice ex_env failing_bot (str ''f1'') ex_config ex_world) = Inr None \<and>
   files (snd (transcribe_voice ex_env failing_bot (str ''f1'') ex_config ex_world)) ''/tmp/tmpq3x9.ogg'' = None"
proof -
  have h: "Download_file (PStr (str ''voice/file_7.oga'')) ''/tmp/tmpq3x9.ogg''
     \<in> set (new_calls ex_world (snd (transcribe_voice ex_env failing_bot (str ''f1'') ex_config ex_world)))"
    by (simp add: ex_defs tv_defs new_calls_def)
  have r: "fst (transcribe_voice ex_env failing_bot (str ''f1'') ex_config ex_world) = Inr None"
    by (simp add: ex_defs tv_defs)
  show ?thesis
    using h r tmp_file_removed [OF h] by blast
qed

text \<open>
  C2, as stated, fails: when the download leaves a directory at the destination, opening
  it fails, the failure is caught and logged, and then \<^verbatim>\<open>unlink\<close> raises in the
  \<^verbatim>\<open>finally\<close> block. The call ends with \<^verbatim>\<open>IsADirectoryError\<close> and the path is
  still there.
\<close>

theorem directory_outlives_call:
  "Download_file (PStr (str ''voice/file_7.oga'')) ''/tmp/tmpq3x9.ogg''
     \<in> set (new_calls ex_world (snd (transcribe_voice ex_env dir_bot (str ''f1'') ex_config ex_world))) \<and>
   fst (transcribe_voice ex_env dir_bot (str ''f1'') ex_config ex_world) =
     Inl (IsADirectoryError ''/tmp/tmpq3x9.ogg'') \<and>
   files (snd (transcribe_voice ex_env dir_bot (str ''f1'') ex_config ex_world)) ''/tmp/tmpq3x9.ogg'' =
     Some (Dir 4096)"
  by (simp add: ex_defs tv_defs new_calls_def)



text \<open>
  C4. In a run where the configuration is read, the key guard passes, the metadata
  request and the download succeed, a regular file is at the temporary path, the client
  is built and the service answers with the text \<open>t\<close>, the call returns \<open>t\<close> stripped
  of leading and trailing whitespace, or \<^verbatim>\<open>None\<close> when nothing is left. And no run
  at all returns the empty string.
\<close>

theorem transcript_stripped:
  "(dict_get config ''voice'' (PDict []) = PDict d \<and>
    truthy (dict_get d ''openai_api_key'' (PStr [])) \<and>
    get_file b fid (files w) = (Inr fp, fs1) \<and>
    download_file b fp (mktemp rt fs1) fs1 = (Inr u, fs2) \<and>
    fs2 (mktemp rt fs1) = Some (File audio) \<and>
    OpenAI rt = Some ctor \<and>
    ctor (dict_get d ''openai_api_key'' (PStr [])) = Inr cl \<and>
    cl (dict_get d ''model'' (PStr (str ''whisper-1''))) audio = Inr (PStr t)
    \<longrightarrow> fst (transcribe_voice rt b fid config w) =
          Inr (if strip t = [] then None else Some (strip t))) \<and>
   fst (transcribe_voice rt b fid config w) \<noteq> Inr (Some [])"
  using transcribe_voice_success [of config d b fid w fp fs1 rt u fs2 audio ctor cl t]
    transcribe_voice_nonempty [of rt b fid config w]
  by blast

theorem transcript_stripped_witness:
  "fst (transcribe_voice ex_env ex_bot (str ''f1'') ex_config ex_world) = Inr (Some (str ''hello world'')) \<and>
   fst (transcribe_voice ex_env_silent ex_bot (str ''f1'') ex_config ex_world) = Inr None"
proof -
  let ?d = "[(''enabled'', PBool True), (''openai_api_key'', PStr (str ''sk-test''))]"
  let ?fs2 = "[''/tmp/tmpq3x9.ogg'' \<mapsto> File ''OggS'']"
  have s1: "strip (str ''  hello world  '') = str ''hello world''"
    by (simp add: strip_def str_def py_isspace_def)
  have s2: "strip [] = []"
    by (simp add: strip_def)
  have h1: "dict_get ex_config ''voice'' (PDict []) = PDict ?d \<and>
    truthy (dict_get ?d ''openai_api_key'' (PStr [])) \<and>
    get_file ex_bot (str ''f1'') (files ex_world) = (Inr (PStr (str ''voice/file_7.oga'')), Map.empty) \<and>
    download_file ex_bot (PStr (str ''voice/file_7.oga'')) (mktemp ex_env Map.empty) Map.empty = (Inr (), ?fs2) \<and>
    ?fs2 (mktemp ex_env Map.empty) = Some (File ''OggS'') \<and>
    OpenAI ex_env = Some (\<lambda>key. Inr ex_client) \<and>
    (\<lambda>key. Inr ex_client) (dict_get ?d ''openai_api_key'' (PStr [])) = Inr ex_client \<and>
    ex_client (dict_get ?d ''model'' (PStr (str ''whisper-1''))) ''OggS'' = Inr (PStr (str ''  hello world  ''))"
    by (simp add: ex_defs dict_get_def)
  have h2: "dict_get ex_config ''voice'' (PDict []) = PDict ?d \<and>
    truthy (dict_get ?d ''openai_api_key'' (PStr [])) \<and>
    get_file ex_bot (str ''f1'') (files ex_world) = (Inr (PStr (str ''voice/file_7.oga'')), Map.empty) \<and>
    download_file ex_bot (PStr (str ''voice/file_7.oga'')) (mktemp ex_env_silent Map.empty) Map.empty = (Inr (), ?fs2) \<and>
    ?fs2 (mktemp ex_env_silent Map.empty) = Some (File ''OggS'') \<and>
    OpenAI ex_env_silent = Some (\<lambda>key. Inr (\<lambda>model audio. Inr (PStr []))) \<and>
    (\<lambda>key. Inr (\<lambda>model audio. Inr (PStr []))) (dict_get ?d ''openai_api_key'' (PStr [])) = Inr (\<lambda>model audio. Inr (PStr [])) \<and>
    (\<lambda>model audio. Inr (PStr [])) (dict_get ?d ''model'' (PStr (str ''whisper-1''))) ''OggS'' = Inr (PStr [])"
    by (simp add: ex_defs ex_env_silent_def dict_get_def)
  have r1: "fst (transcribe_voice ex_env ex_bot (str ''f1'') ex_config ex_world) =
      Inr (if strip (str ''  hello world  '') = [] then None else Some (strip (str ''  hello world  '')))"
    by (rule mp [OF conjunct1 [OF transcript_stripped [where config = ex_config and d = ?d and b = ex_bot and fid = "str ''f1''"
        and w = ex_world and fp = "PStr (str ''voice/file_7.oga'')" and ?fs1.0 = Map.empty and rt = ex_env
        and u = "()" and ?fs2.0 = ?fs2 and audio = "''OggS''" and ctor = "\<lambda>key. Inr ex_client"
        and cl = ex_client and t = "str ''  hello world  ''"]] h1])
  have r2: "fst (transcribe_voice ex_env_silent ex_bot (str ''f1'') ex_config ex_world) =
      Inr (if strip [] = [] then None else Some (strip []))"
    by (rule mp [OF conjunct1 [OF transcript_stripped [where config = ex_config and d = ?d and b = ex_bot and fid = "str ''f1''"
        and w = ex_world and fp = "PStr (str ''voice/file_7.oga'')" and ?fs1.0 = Map.empty and rt = ex_env_silent
        and u = "()" and ?fs2.0 = ?fs2 and audio = "''OggS''" and ctor = "\<lambda>key. Inr (\<lambda>model audio. Inr (PStr []))"
        and cl = "\<lambda>model audio. Inr (PStr [])" and t = "[]"]] h2])
  have ne: "str ''hello world'' \<noteq> []"
    by (simp add: str_def)
  show ?thesis
    unfolding r1 r2 s1 s2 using ne by simp
qed

text \<open>
  C10. When \<^verbatim>\<open>is_available\<close> returns true, the key guard of \<^verbatim>\<open>transcribe_voice\<close> on
  the same configuration passes: the lookup of the key raises nothing and yields a true
  value, so the early return is not taken and the first thing the call does is to ask the
  messaging client for the metadata of the file.
\<close>

theorem available_passes_key_guard:
  assumes "fst (is_available rt config lg) = Inr True"
  shows "\<exists>k cs. py_get (dict_get config ''voice'' (PDict [])) ''openai_api_key'' (PStr []) = Inr k \<and>
           truthy k \<and>
           new_calls w (snd (transcribe_voice rt b fid config w)) = Get_file fid # cs"
proof -
  obtain d where d: "dict_get config ''voice'' (PDict []) = PDict d"
    and key: "truthy (dict_get d ''openai_api_key'' PNone)"
    using assms by (rule is_available_TrueD)
  have k: "truthy (dict_get d ''openai_api_key'' (PStr []))"
    using key by (rule truthy_key_default)
  obtain r tp w1 where T: "try_block rt b fid (dict_get d ''openai_api_key'' (PStr []))
         (dict_get d ''model'' (PStr (str ''whisper-1''))) w = (r, tp, w1)"
    using prod_cases3 by blast
  obtain cs where cs: "calls w1 = calls w @ Get_file fid # cs"
    using try_block_calls [OF T] by blast
  have "calls (snd (transcribe_voice rt b fid config w)) = calls w @ Get_file fid # cs"
    by (simp add: transcribe_voice_guarded [OF d k T] finally_clause_calls except_clause_simps cs)
  then have "new_calls w (snd (transcribe_voice rt b fid config w)) = Get_file fid # cs"
    by (rule new_calls_append)
  with d k show ?thesis by simp
qed

theorem available_passes_key_guard_witness:
  "fst (is_available ex_env ex_config []) = Inr True \<and>
   (\<exists>k cs. py_get (dict_get ex_config ''voice'' (PDict [])) ''openai_api_key'' (PStr []) = Inr k \<and>
           truthy k \<and>
           new_calls ex_world (snd (transcribe_voice ex_env ex_bot (str ''f1'') ex_config ex_world)) =
             Get_file (str ''f1'') # cs)"
proof -
  have h: "fst (is_available ex_env ex_config []) = Inr True"
    by (simp add: is_available_def ex_defs dict_get_def HAS_OPENAI_def)
  show ?thesis
    using h available_passes_key_guard [OF h, of ex_world ex_bot "str ''f1''"] by (rule conjI)
qed




text \<open>
  C8. Two calls in a row, with the same file id and configuration, a messaging client and
  a transcription service that are pure functions, and the same OpenAI library; the two
  calls may be handed different temporary names, each one a path where nothing was when
  \<^verbatim>\<open>mktemp\<close> picked it. The second call returns what the first returned, the file
  system after both is the one before the first, and nothing is left at any destination
  that either call handed to \<^verbatim>\<open>download_file\<close>.
\<close>

theorem transcribe_twice:
  assumes "transcribe_voice rt1 (pure_bot gf dl) fid config w = (r1, w1)"
    and "transcribe_voice rt2 (pure_bot gf dl) fid config w1 = (r2, w2)"
    and "OpenAI rt2 = OpenAI rt1"
    and "files w (mktemp rt1 (files w)) = None"
    and "files w1 (mktemp rt2 (files w1)) = None"
  shows "r2 = r1 \<and> files w2 = files w \<and>
         (\<forall>fp p. Download_file fp p \<in> set (new_calls w w2) \<longrightarrow> files w2 p = None)"
proof -
  have r: "r2 = r1"
    using pure_result_indep [OF assms(3,4,5), of gf dl fid config] assms(1,2) by simp
  have f1: "files w1 = files w"
    using pure_files_restored [OF assms(4), of gf dl fid config] assms(1) by simp
  have f2: "files w2 = files w1"
    using pure_files_restored [OF assms(5), of gf dl fid config] assms(2) by simp
  obtain cs1 where cs1: "calls w1 = calls w @ cs1"
    using transcribe_voice_calls [of rt1 "pure_bot gf dl" fid config w] assms(1) by auto
  obtain cs2 where cs2: "calls w2 = calls w1 @ cs2"
    using transcribe_voice_calls [of rt2 "pure_bot gf dl" fid config w1] assms(2) by auto
  have n1: "new_calls w w1 = cs1"
    by (rule new_calls_append) (rule cs1)
  have n2: "new_calls w1 w2 = cs2"
    by (rule new_calls_append) (rule cs2)
  have n: "new_calls w w2 = cs1 @ cs2"
    by (rule new_calls_append) (simp add: cs1 cs2)
  have d1: "files w2 p = None" if "Download_file fp p \<in> set cs1" for fp p
  proof -
    have "p = mktemp rt1 (files w)"
      using pure_destination [of fp p w rt1 gf dl fid config] that n1 assms(1) by simp
    with assms(4) f1 f2 show ?thesis by simp
  qed
  have d2: "files w2 p = None" if "Download_file fp p \<in> set cs2" for fp p
  proof -
    have "p = mktemp rt2 (files w1)"
      using pure_destination [of fp p w1 rt2 gf dl fid config] that n2 assms(2) by simp
    with assms(5) f2 show ?thesis by simp
  qed
  have "\<forall>fp p. Download_file fp p \<in> set (new_calls w w2) \<longrightarrow> files w2 p = None"
    using d1 d2 by (auto simp add: n)
  with r f1 f2 show ?thesis by simp
qed

theorem transcribe_twice_witness:
  "fst (transcribe_voice ex_env2 ex_bot (str ''f1'') ex_config
          (snd (transcribe_voice ex_env ex_bot (str ''f1'') ex_config ex_world))) =
     fst (transcribe_voice ex_env ex_bot (str ''f1'') ex_config ex_world) \<and>
   fst (transcribe_voice ex_env ex_bot (str ''f1'') ex_config ex_world) = Inr (Some (str ''hello world'')) \<and>
   files (snd (transcribe_voice ex_env2 ex_bot (str ''f1'') ex_config
          (snd (transcribe_voice ex_env ex_bot (str ''f1'') ex_config ex_world)))) = Map.empty"
proof -
  let ?run1 = "transcribe_voice ex_env (pure_bot ex_gf ex_dl) (str ''f1'') ex_config ex_world"
  let ?run2 = "transcribe_voice ex_env2 (pure_bot ex_gf ex_dl) (str ''f1'') ex_config (snd ?run1)"
  have v1: "fst ?run1 = Inr (Some (str ''hello world''))"
    by (simp add: ex_gf_def ex_dl_def ex_client_def ex_env_def ex_config_def ex_world_def
        pure_bot_def str_def tv_defs strip_def py_isspace_def)
  have w1: "files (snd ?run1) = Map.empty"
    by (simp add: ex_gf_def ex_dl_def ex_client_def ex_env_def ex_config_def ex_world_def
        pure_bot_def str_def tv_defs strip_def py_isspace_def)
  have h1: "?run1 = (fst ?run1, snd ?run1)" by simp
  have h2: "?run2 = (fst ?run2, snd ?run2)" by simp
  have h3: "OpenAI ex_env2 = OpenAI ex_env"
    by (simp add: ex_env_def ex_env2_def)
  have h4: "files ex_world (mktemp ex_env (files ex_world)) = None"
    by (simp add: ex_world_def)
  have h5: "files (snd ?run1) (mktemp ex_env2 (files (snd ?run1))) = None"
    by (simp add: w1)
  from transcribe_twice [OF h1 h2 h3 h4 h5]
  have "fst ?run2 = fst ?run1" "files (snd ?run2) = files ex_world"
    by blast+
  with v1 show ?thesis
    by (simp add: ex_bot_def ex_world_def)
qed

end
